theory Spec2Isabelle
  imports Complex_Main "HOL-Library.Word"
begin

unbundle bit_operations_syntax

section \<open>Numbers and errors\<close>

text \<open>
  The engine computes on Go \<open>float64\<close> values. They are modelled with their IEEE-754
  special values written out and with rounding idealised: a finite value is a real
  number, and an operation on finite values returns the exact real result. What Go does
  at the edges is kept: a division by zero does not panic, it returns an infinity or
  \<open>NaN\<close>; every comparison with \<open>NaN\<close> is false. The sign of zero is not modelled (a
  non-zero value divided by zero takes the sign of the dividend).
\<close>

datatype float64 = Fin real | PInf | NInf | NaN

fun fneg :: "float64 \<Rightarrow> float64" where
  "fneg (Fin x) = Fin (- x)"
| "fneg PInf = NInf"
| "fneg NInf = PInf"
| "fneg NaN = NaN"

fun fadd :: "float64 \<Rightarrow> float64 \<Rightarrow> float64" where
  "fadd (Fin x) (Fin y) = Fin (x + y)"
| "fadd NaN b = NaN"
| "fadd a NaN = NaN"
| "fadd PInf NInf = NaN"
| "fadd NInf PInf = NaN"
| "fadd PInf b = PInf"
| "fadd a PInf = PInf"
| "fadd NInf b = NInf"
| "fadd a NInf = NInf"

definition fsub :: "float64 \<Rightarrow> float64 \<Rightarrow> float64" where
  "fsub a b = fadd a (fneg b)"

fun fmul :: "float64 \<Rightarrow> float64 \<Rightarrow> float64" where
  "fmul (Fin x) (Fin y) = Fin (x * y)"
| "fmul NaN b = NaN"
| "fmul a NaN = NaN"
| "fmul (Fin x) PInf = (if x = 0 then NaN else if 0 < x then PInf else NInf)"
| "fmul (Fin x) NInf = (if x = 0 then NaN else if 0 < x then NInf else PInf)"
| "fmul PInf (Fin y) = (if y = 0 then NaN else if 0 < y then PInf else NInf)"
| "fmul NInf (Fin y) = (if y = 0 then NaN else if 0 < y then NInf else PInf)"
| "fmul PInf PInf = PInf"
| "fmul PInf NInf = NInf"
| "fmul NInf PInf = NInf"
| "fmul NInf NInf = PInf"

fun fdiv :: "float64 \<Rightarrow> float64 \<Rightarrow> float64" where
  "fdiv (Fin x) (Fin y) =
     (if y = 0 then (if x = 0 then NaN else if 0 < x then PInf else NInf)
      else Fin (x / y))"
| "fdiv NaN b = NaN"
| "fdiv a NaN = NaN"
| "fdiv (Fin x) b = Fin 0"
| "fdiv PInf (Fin y) = (if 0 \<le> y then PInf else NInf)"
| "fdiv NInf (Fin y) = (if 0 \<le> y then NInf else PInf)"
| "fdiv a b = NaN"

fun fabs :: "float64 \<Rightarrow> float64" where
  "fabs (Fin x) = Fin \<bar>x\<bar>"
| "fabs PInf = PInf"
| "fabs NInf = PInf"
| "fabs NaN = NaN"

text \<open>Go's \<open>a < b\<close> and \<open>a <= b\<close> on \<open>float64\<close>.\<close>

fun fless :: "float64 \<Rightarrow> float64 \<Rightarrow> bool" where
  "fless (Fin x) (Fin y) = (x < y)"
| "fless NaN b = False"
| "fless a NaN = False"
| "fless a NInf = False"
| "fless PInf b = False"
| "fless a b = True"


text \<open>
  A runtime panic of the Go code (an index out of range) and the error returns of the
  file readers are values of \<open>error\<close>; a function that can panic or return an error
  has the result type \<open>error + 'a\<close>.
\<close>

datatype error = IOError | InvalidIndexRange | SeekBeyondFile | IndexOutOfRange | EmptyInputData

text \<open>A loop that fills a slice element by element and stops at the first panic.\<close>

fun collect :: "(nat \<Rightarrow> error + 'a) \<Rightarrow> nat list \<Rightarrow> error + 'a list" where
  "collect f [] = Inr []"
| "collect f (i # is) =
     (case f i of
        Inl e \<Rightarrow> Inl e
      | Inr v \<Rightarrow> (case collect f is of Inl e \<Rightarrow> Inl e | Inr vs \<Rightarrow> Inr (v # vs)))"

section \<open>ExtremaDownsampler: \<open>dynamicDownsample\<close> (timeseries.go)\<close>

text \<open>The running state of the scan of one bin (lines 165 to 183).\<close>

record binScan =
  minVal :: float64
  maxVal :: float64
  minIdx :: nat
  maxIdx :: nat
  binSum :: float64
  binCount :: nat

definition scanStep :: "float64 list \<Rightarrow> binScan \<Rightarrow> nat \<Rightarrow> binScan" where
  "scanStep vals a j =
     (let val = vals ! j;
          a1 = a\<lparr>binSum := fadd (binSum a) val, binCount := binCount a + 1\<rparr>;
          a2 = (if fless val (minVal a1) then a1\<lparr>minVal := val, minIdx := j\<rparr> else a1)
      in if fless (maxVal a2) val then a2\<lparr>maxVal := val, maxIdx := j\<rparr> else a2)"

definition scanBin :: "float64 list \<Rightarrow> nat \<Rightarrow> nat \<Rightarrow> binScan" where
  "scanBin vals start endIdx =
     foldl (scanStep vals)
       \<lparr>minVal = vals ! start, maxVal = vals ! start, minIdx = start, maxIdx = start,
        binSum = vals ! start, binCount = 1\<rparr>
       [start + 1 ..< endIdx]"

definition binAvg :: "binScan \<Rightarrow> float64" where
  "binAvg a = fdiv (binSum a) (Fin (real (binCount a)))"

text \<open>
  The indices of the input points a bin keeps (lines 190 to 206): the first point, the
  minimum and the maximum, each under its condition, then sorted.
\<close>

definition binIndices :: "float64 list \<Rightarrow> nat \<Rightarrow> nat \<Rightarrow> nat list" where
  "binIndices vals start endIdx =
     (let a = scanBin vals start endIdx;
          avg = binAvg a;
          i0 = (if minIdx a \<noteq> start \<and> maxIdx a \<noteq> start then [start] else []);
          threshold = fmul (Fin (5 / 100)) (fabs (fsub (maxVal a) (minVal a)));
          i1 = (if minIdx a \<noteq> start \<and> fless threshold (fabs (fsub (minVal a) avg))
                then i0 @ [minIdx a] else i0);
          i2 = (if maxIdx a \<noteq> start \<and> maxIdx a \<noteq> minIdx a \<and>
                   fless threshold (fabs (fsub (maxVal a) avg))
                then i1 @ [maxIdx a] else i1)
      in sort i2)"

text \<open>
  The points one bin appends to the output (lines 186, 187 and 208 to 218): the kept
  input points, then the average point when a point was kept and the average time lies
  after the last of them.
\<close>

definition processBin ::
  "float64 list \<Rightarrow> float64 list \<Rightarrow> nat \<Rightarrow> nat \<Rightarrow> float64 list \<times> float64 list" where
  "processBin tms vals start endIdx =
     (let avg = binAvg (scanBin vals start endIdx);
          avgTime = fdiv (fadd (tms ! start) (tms ! (endIdx - 1))) (Fin 2);
          indices = binIndices vals start endIdx;
          kept = (map ((!) tms) indices, map ((!) vals) indices)
      in if indices \<noteq> [] \<and> fless (tms ! last indices) avgTime
         then (fst kept @ [avgTime], snd kept @ [avg])
         else kept)"

text \<open>
  The loop over the bins (lines 153 to 219). \<open>dynamicDownsample\<close> enters it with
  \<open>binSize > 1\<close> only; the step must be positive for the loop to end.
\<close>

function binLoop ::
  "float64 list \<Rightarrow> float64 list \<Rightarrow> nat \<Rightarrow> nat \<Rightarrow> float64 list \<times> float64 list
     \<Rightarrow> float64 list \<times> float64 list" where
  "binLoop tms vals binSize start out =
     (if start < length tms \<and> 0 < binSize then
        (let endIdx = (if start + binSize > length tms then length tms else start + binSize)
         in if start = endIdx then binLoop tms vals binSize (start + binSize) out
            else
              (let p = processBin tms vals start endIdx
               in binLoop tms vals binSize (start + binSize)
                    (fst out @ fst p, snd out @ snd p)))
      else out)"
  by pat_completeness auto
termination
proof (relation "measure (\<lambda>(tms, vals, binSize, start, out). length tms - start)")
  show "wf (measure (\<lambda>(tms, vals, binSize, start, out). length tms - start))"
    by (rule wf_measure)
next
  fix tms vals :: "float64 list" and binSize start :: nat
    and out :: "float64 list \<times> float64 list" and x :: nat
  assume "start < length tms \<and> 0 < binSize"
  then show "((tms, vals, binSize, start + binSize, out), (tms, vals, binSize, start, out))
      \<in> measure (\<lambda>(tms, vals, binSize, start, out). length tms - start)"
    by simp arith
next
  fix tms vals :: "float64 list" and binSize start :: nat
    and out :: "float64 list \<times> float64 list" and x :: nat
    and xa :: "float64 list \<times> float64 list"
  assume "start < length tms \<and> 0 < binSize"
  then show "((tms, vals, binSize, start + binSize, fst out @ fst xa, snd out @ snd xa),
       (tms, vals, binSize, start, out))
      \<in> measure (\<lambda>(tms, vals, binSize, start, out). length tms - start)"
    by simp arith
qed

declare binLoop.simps [simp del]

text \<open>
  \<open>dynamicDownsample\<close>. With more than two points and \<open>binSize > 1\<close> every index below
  \<open>len(times)\<close> is read from \<open>values\<close>, so a shorter \<open>values\<close> panics.
\<close>

definition dynamicDownsample ::
  "float64 list \<Rightarrow> float64 list \<Rightarrow> int \<Rightarrow> error + (float64 list \<times> float64 list)" where
  "dynamicDownsample tms vals binSize =
     (if length tms \<le> 2 \<or> binSize \<le> 1 then Inr (tms, vals)
      else if length vals < length tms then Inl IndexOutOfRange
      else Inr (binLoop tms vals (nat binSize) 0 ([], [])))"

section \<open>SampleStore: the file readers (timeseries.go)\<close>

text \<open>
  A file system maps a path to the bytes of the file, or to nothing when the file
  cannot be opened or stat'ed.
\<close>

type_synonym byte = "8 word"
type_synonym filesystem = "string \<Rightarrow> byte list option"

text \<open>\<open>binary.LittleEndian.Uint32\<close> and \<open>Uint64\<close> on a slice of 4 and of 8 bytes.\<close>

definition Uint32 :: "byte list \<Rightarrow> 32 word" where
  "Uint32 b =
     ucast (b ! 0) OR push_bit 8 (ucast (b ! 1)) OR push_bit 16 (ucast (b ! 2)) OR
     push_bit 24 (ucast (b ! 3))"

definition Uint64 :: "byte list \<Rightarrow> 64 word" where
  "Uint64 b =
     ucast (b ! 0) OR push_bit 8 (ucast (b ! 1)) OR push_bit 16 (ucast (b ! 2)) OR
     push_bit 24 (ucast (b ! 3)) OR push_bit 32 (ucast (b ! 4)) OR
     push_bit 40 (ucast (b ! 5)) OR push_bit 48 (ucast (b ! 6)) OR
     push_bit 56 (ucast (b ! 7))"

text \<open>
  \<open>float64(math.Float32frombits(w))\<close>: the value of an IEEE-754 single (1 sign bit,
  8 exponent bits, 23 fraction bits), which a \<open>float64\<close> holds exactly.
\<close>

definition Float32frombits :: "32 word \<Rightarrow> float64" where
  "Float32frombits w =
     (let e = unat (drop_bit 23 w AND 0xFF);
          m = unat (w AND 0x7FFFFF);
          sgn = (if bit w 31 then - 1 else 1 :: real)
      in if e = 255 then (if m = 0 then (if bit w 31 then NInf else PInf) else NaN)
         else if e = 0 then Fin (sgn * real m / 2 ^ 149)
         else Fin (sgn * real (2 ^ 23 + m) * 2 ^ e / 2 ^ 150))"

text \<open>\<open>math.Float64frombits\<close> (1 sign bit, 11 exponent bits, 52 fraction bits).\<close>

definition Float64frombits :: "64 word \<Rightarrow> float64" where
  "Float64frombits w =
     (let e = unat (drop_bit 52 w AND 0x7FF);
          m = unat (w AND 0xFFFFFFFFFFFFF);
          sgn = (if bit w 63 then - 1 else 1 :: real)
      in if e = 2047 then (if m = 0 then (if bit w 63 then NInf else PInf) else NaN)
         else if e = 0 then Fin (sgn * real m / 2 ^ 1074)
         else Fin (sgn * real (2 ^ 52 + m) * 2 ^ e / 2 ^ 1075))"

text \<open>\<open>GetTotalFileLength\<close> (lines 12 to 24): the sample count of a list of files.\<close>

fun totalLengthLoop :: "filesystem \<Rightarrow> string list \<Rightarrow> int \<Rightarrow> error + int" where
  "totalLengthLoop fs [] totalLength = Inr totalLength"
| "totalLengthLoop fs (filePath # rest) totalLength =
     (case fs filePath of
        None \<Rightarrow> Inl IOError
      | Some bytes \<Rightarrow> totalLengthLoop fs rest (totalLength + int (length bytes) div 4))"

definition GetTotalFileLength :: "filesystem \<Rightarrow> string list \<Rightarrow> error + int" where
  "GetTotalFileLength fs filePaths = totalLengthLoop fs filePaths 0"

text \<open>
  \<open>readBinaryFile\<close> (lines 66 to 127), the windowed reader of the plot path: 4 bytes
  per sample, decoded as little-endian singles. It returns the sample indices as times
  and the samples as values.
\<close>

definition readBinaryFile ::
  "filesystem \<Rightarrow> string \<Rightarrow> int \<Rightarrow> int \<Rightarrow> error + (float64 list \<times> float64 list)" where
  "readBinaryFile fs filePath startIndex0 endIndex0 =
     (case fs filePath of
        None \<Rightarrow> Inl IOError
      | Some bytes \<Rightarrow>
          (let size = int (length bytes);
               totalPoints = size div 4;
               startIndex = (if startIndex0 < 0 then 0 else startIndex0);
               endIndex = (if endIndex0 \<le> 0 \<or> endIndex0 > totalPoints then totalPoints
                           else endIndex0)
           in if startIndex \<ge> endIndex then Inl InvalidIndexRange
              else
                (let pointsToRead0 = endIndex - startIndex;
                     seekPos = startIndex * 4
                 in if seekPos \<ge> size then Inl SeekBeyondFile
                    else
                      (let data = take (nat (pointsToRead0 * 4)) (drop (nat seekPos) bytes);
                           actualPoints = int (length data) div 4;
                           pointsToRead = (if actualPoints < pointsToRead0 then actualPoints
                                           else pointsToRead0)
                       in Inr (map (\<lambda>i. Fin (real_of_int (startIndex + int i)))
                                 [0 ..< nat pointsToRead],
                               map (\<lambda>i. Float32frombits (Uint32 (take 4 (drop (i * 4) data))))
                                 [0 ..< nat pointsToRead])))))"

text \<open>
  \<open>ReadBinaryFile\<close> (lines 225 to 246), the full read of the FFT request path: it
  allocates \<open>info.Size()/8\<close> values and \<open>binary.Read\<close> fills them from 8 bytes each.
\<close>

definition ReadBinaryFile :: "filesystem \<Rightarrow> string \<Rightarrow> error + float64 list" where
  "ReadBinaryFile fs path =
     (case fs path of
        None \<Rightarrow> Inl IOError
      | Some bytes \<Rightarrow>
          Inr (map (\<lambda>i. Float64frombits (Uint64 (take 8 (drop (i * 8) bytes))))
                 [0 ..< length bytes div 8]))"

section \<open>The FIR pipeline (package fir)\<close>

subsection \<open>Helpers\<close>

definition calculateMean :: "float64 list \<Rightarrow> float64" where
  "calculateMean data = fdiv (foldl fadd (Fin 0) data) (Fin (real (length data)))"

text \<open>\<open>roll\<close> (lines 285 to 292); on an empty slice the loop body never runs.\<close>

definition roll :: "float64 list \<Rightarrow> nat \<Rightarrow> float64 list" where
  "roll data shift = map (\<lambda>i. data ! ((i + shift) mod length data)) [0 ..< length data]"

text \<open>
  \<open>dotProduct\<close> (lines 294 to 300) ranges over the indices of \<open>a\<close> and reads \<open>b\<close>
  at each: it panics when \<open>b\<close> is shorter.
\<close>

definition dotProduct :: "float64 list \<Rightarrow> float64 list \<Rightarrow> error + float64" where
  "dotProduct a b =
     (if length b < length a then Inl IndexOutOfRange
      else Inr (foldl (\<lambda>s i. fadd s (fmul (a ! i) (b ! i))) (Fin 0) [0 ..< length a]))"

subsection \<open>CircularFilter: \<open>applyFIRFilter\<close> (lines 236 to 246)\<close>

definition applyFIRFilter :: "float64 list \<Rightarrow> float64 list \<Rightarrow> error + float64 list" where
  "applyFIRFilter signal coeffs =
     collect (\<lambda>i. dotProduct coeffs (roll signal i)) [0 ..< length signal]"

subsection \<open>ReferenceSynthesizer: \<open>generatePerfectSquareWave\<close> (lines 162 to 206)\<close>

record levels =
  highValue :: float64
  highCount :: nat
  lowValue :: float64
  lowCount :: nat

definition levelStep :: "float64 \<Rightarrow> levels \<Rightarrow> float64 \<Rightarrow> levels" where
  "levelStep mean acc v =
     (if fless mean v
      then acc\<lparr>highValue := fadd (highValue acc) v, highCount := highCount acc + 1\<rparr>
      else acc\<lparr>lowValue := fadd (lowValue acc) v, lowCount := lowCount acc + 1\<rparr>)"

definition splitLevels :: "float64 list \<Rightarrow> levels" where
  "splitLevels signal =
     foldl (levelStep (calculateMean signal))
       \<lparr>highValue = Fin 0, highCount = 0, lowValue = Fin 0, lowCount = 0\<rparr> signal"

text \<open>
  The function has no error result and no statement that can panic: the two divisions
  by the partition sizes are \<open>float64\<close> divisions.
\<close>

definition generatePerfectSquareWave :: "float64 list \<Rightarrow> float64 list" where
  "generatePerfectSquareWave signal =
     (let n = length signal;
          mean = calculateMean signal;
          firstHalfMean = calculateMean (take (n div 2) signal);
          isFirstHalfHigh = fless mean firstHalfMean;
          acc = splitLevels signal;
          high = fdiv (highValue acc) (Fin (real (highCount acc)));
          low = fdiv (lowValue acc) (Fin (real (lowCount acc)))
      in if isFirstHalfHigh then replicate (n div 2) high @ replicate (n - n div 2) low
         else replicate (n div 2) low @ replicate (n - n div 2) high)"

subsection \<open>LeastSquaresFIRSolver (lines 208 to 234 and 303 to 377)\<close>

text \<open>
  A matrix is a slice of rows. Each matrix function panics exactly where the Go code
  indexes out of range: \<open>transposeMatrix\<close> and \<open>matrixMultiply\<close> read row 0 of their
  (second) argument before any loop, and every row must be long enough for the
  columns that are read.
\<close>

definition transposeMatrix :: "float64 list list \<Rightarrow> error + float64 list list" where
  "transposeMatrix m =
     (if m = [] then Inl IndexOutOfRange
      else
        (let rows = length m; cols = length (m ! 0)
         in if list_ex (\<lambda>r. length r < cols) m then Inl IndexOutOfRange
            else Inr (map (\<lambda>j. map (\<lambda>i. m ! i ! j) [0 ..< rows]) [0 ..< cols])))"

definition matrixMultiply ::
  "float64 list list \<Rightarrow> float64 list list \<Rightarrow> error + float64 list list" where
  "matrixMultiply a b =
     (if b = [] then Inl IndexOutOfRange
      else
        (let rows = length a; cols = length (b ! 0)
         in if 0 < rows \<and> 0 < cols \<and>
               (list_ex (\<lambda>r. length r < length b) a \<or> list_ex (\<lambda>r. length r < cols) b)
            then Inl IndexOutOfRange
            else Inr (map (\<lambda>i. map (\<lambda>j.
                   foldl (\<lambda>s k. fadd s (fmul (a ! i ! k) (b ! k ! j))) (Fin 0) [0 ..< length b])
                   [0 ..< cols]) [0 ..< rows])))"

definition matrixVectorMultiply ::
  "float64 list list \<Rightarrow> float64 list \<Rightarrow> error + float64 list" where
  "matrixVectorMultiply m v =
     (if list_ex (\<lambda>r. length v < length r) m then Inl IndexOutOfRange
      else Inr (map (\<lambda>i.
             foldl (\<lambda>s j. fadd s (fmul (m ! i ! j) (v ! j))) (Fin 0) [0 ..< length (m ! i)])
             [0 ..< length m]))"

text \<open>
  \<open>solveLinearSystem\<close> (lines 347 to 377) updates \<open>A\<close> and \<open>b\<close> in place; the model
  passes them along. Step \<open>i\<close> of the forward elimination divides row \<open>i\<close> and \<open>b[i]\<close>
  by the pivot \<open>A[i][i]\<close>, read once before the row is touched, and then clears column
  \<open>i\<close> below the diagonal. The pivot is not tested and no rows are exchanged.
\<close>

definition divideRow :: "float64 list list \<Rightarrow> nat \<Rightarrow> nat \<Rightarrow> float64 \<Rightarrow> float64 list list" where
  "divideRow A i n pivot =
     foldl (\<lambda>M j. M[i := (M ! i)[j := fdiv (M ! i ! j) pivot]]) A [i ..< n]"

definition eliminateRow ::
  "nat \<Rightarrow> nat \<Rightarrow> float64 list list \<times> float64 list \<Rightarrow> nat \<Rightarrow> float64 list list \<times> float64 list"
  where
  "eliminateRow i n Ab k =
     (let A = fst Ab; b = snd Ab; factor = A ! k ! i
      in (foldl (\<lambda>M j. M[k := (M ! k)[j := fsub (M ! k ! j) (fmul factor (M ! i ! j))]]) A
            [i ..< n],
          b[k := fsub (b ! k) (fmul factor (b ! i))]))"

definition forwardStep ::
  "nat \<Rightarrow> float64 list list \<times> float64 list \<Rightarrow> nat \<Rightarrow> float64 list list \<times> float64 list" where
  "forwardStep n Ab i =
     (let A = fst Ab; b = snd Ab; pivot = A ! i ! i
      in foldl (eliminateRow i n) (divideRow A i n pivot, b[i := fdiv (b ! i) pivot])
           [i + 1 ..< n])"

definition backStep ::
  "float64 list list \<Rightarrow> float64 list \<Rightarrow> nat \<Rightarrow> float64 list \<Rightarrow> nat \<Rightarrow> float64 list" where
  "backStep A b n x i =
     foldl (\<lambda>y j. y[i := fsub (y ! i) (fmul (A ! i ! j) (y ! j))]) (x[i := b ! i]) [i + 1 ..< n]"

definition solveLinearSystem :: "float64 list list \<Rightarrow> float64 list \<Rightarrow> error + float64 list" where
  "solveLinearSystem A b =
     (let n = length A
      in if list_ex (\<lambda>r. length r < n) A \<or> length b < n then Inl IndexOutOfRange
         else
           (let Ab = foldl (forwardStep n) (A, b) [0 ..< n]
            in Inr (foldl (backStep (fst Ab) (snd Ab) n) (replicate n (Fin 0)) (rev [0 ..< n]))))"

text \<open>\<open>regularizedLeastSquares\<close> (lines 208 to 234).\<close>

definition addRegularization ::
  "float64 list list \<Rightarrow> nat \<Rightarrow> float64 \<Rightarrow> float64 list list" where
  "addRegularization ATA n regParam =
     (let diagMean = fdiv (foldl (\<lambda>s i. fadd s (ATA ! i ! i)) (Fin 0) [0 ..< n]) (Fin (real n))
      in foldl (\<lambda>M i. M[i := (M ! i)[i := fadd (M ! i ! i) (fmul diagMean regParam)]]) ATA
           [0 ..< n])"

text \<open>
  The regularized normal equations (lines 209 to 230): the matrix \<open>A\<^sup>T A\<close> with the
  regularization on its diagonal, and the vector \<open>A\<^sup>T b\<close>.
\<close>

definition normalEquations ::
  "float64 list \<Rightarrow> float64 list \<Rightarrow> float64 \<Rightarrow> error + (float64 list list \<times> float64 list)"
  where
  "normalEquations imperfect perfect regParam =
     (let n = length imperfect;
          A = map (roll imperfect) [0 ..< n]
      in case transposeMatrix A of
           Inl e \<Rightarrow> Inl e
         | Inr AT \<Rightarrow>
             (case matrixMultiply AT A of
                Inl e \<Rightarrow> Inl e
              | Inr ATA \<Rightarrow>
                  (case matrixVectorMultiply AT perfect of
                     Inl e \<Rightarrow> Inl e
                   | Inr ATb \<Rightarrow> Inr (addRegularization ATA n regParam, ATb))))"

definition regularizedLeastSquares ::
  "float64 list \<Rightarrow> float64 list \<Rightarrow> float64 \<Rightarrow> error + float64 list" where
  "regularizedLeastSquares imperfect perfect regParam =
     (case normalEquations imperfect perfect regParam of
        Inl e \<Rightarrow> Inl e
      | Inr Ab \<Rightarrow> solveLinearSystem (fst Ab) (snd Ab))"

text \<open>
  The pivot that step \<open>i\<close> of the forward elimination of \<open>solveLinearSystem A b\<close>
  reads: the diagonal entry \<open>A[i][i]\<close> after the steps \<open>0, \<dots>, i - 1\<close>.
\<close>

definition pivotAt :: "float64 list list \<Rightarrow> float64 list \<Rightarrow> nat \<Rightarrow> float64" where
  "pivotAt A b i = fst (foldl (forwardStep (length A)) (A, b) [0 ..< i]) ! i ! i"

definition isFinite :: "float64 \<Rightarrow> bool" where
  "isFinite f = (case f of Fin x \<Rightarrow> True | PInf \<Rightarrow> False | NInf \<Rightarrow> False | NaN \<Rightarrow> False)"

subsection \<open>CycleStacker: \<open>resample\<close> (lines 267 to 283)\<close>

text \<open>
  \<open>int(pos)\<close> truncates towards zero. For a value outside the range of \<open>int\<close> (or not
  finite) Go leaves the result to the implementation; amd64 returns the least \<open>int64\<close>.
\<close>

definition toInt :: "float64 \<Rightarrow> int" where
  "toInt f =
     (case f of
        Fin x \<Rightarrow>
          (let t = (if 0 \<le> x then \<lfloor>x\<rfloor> else \<lceil>x\<rceil>)
           in if - (2 ^ 63) \<le> t \<and> t < 2 ^ 63 then t else - (2 ^ 63))
      | PInf \<Rightarrow> - (2 ^ 63)
      | NInf \<Rightarrow> - (2 ^ 63)
      | NaN \<Rightarrow> - (2 ^ 63))"

definition resampleAt :: "float64 list \<Rightarrow> float64 \<Rightarrow> nat \<Rightarrow> error + float64" where
  "resampleAt data ratio i =
     (let pos = fmul (Fin (real i)) ratio;
          idx = toInt pos;
          frac = fsub pos (Fin (real_of_int idx))
      in if idx + 1 < int (length data) then
           (if idx < 0 then Inl IndexOutOfRange
            else Inr (fadd (fmul (data ! nat idx) (fsub (Fin 1) frac))
                           (fmul (data ! nat (idx + 1)) frac)))
         else if 0 \<le> idx \<and> idx < int (length data) then Inr (data ! nat idx)
         else Inl IndexOutOfRange)"

text \<open>\<open>newLen\<close> is the length of the slice made first; it is not negative.\<close>

definition resample :: "float64 list \<Rightarrow> nat \<Rightarrow> error + float64 list" where
  "resample data newLen =
     (let ratio = fdiv (Fin (real_of_int (int (length data) - 1)))
                       (Fin (real_of_int (int newLen - 1)))
      in collect (resampleAt data ratio) [0 ..< newLen])"

section \<open>SpectrumAnalyzer: \<open>ComputeFFT\<close> (package fft)\<close>

record FFTResult =
  Frequencies :: "float64 list"
  Magnitudes :: "float64 list"
  Harmonics :: "float64 list list"
  SampleRate :: float64

definition MinMagnitude :: float64 where
  "MinMagnitude = Fin (- 120)"

definition fftSize :: nat where
  "fftSize = 65536"

text \<open>
  Modelled from the spec: \<open>fft.Freq\<close> of the transform library (gonum's \<open>fourier.FFT\<close>),
  which is not part of the repository. The spec gives the frequency of bin \<open>i\<close> as
  \<open>(i / transformSize) \<times> (sampleRate/2)\<close>, and the code multiplies \<open>fft.Freq(i)\<close> by
  \<open>sampleRate / 2\<close>: \<open>Freq\<close> of a transform of size \<open>n\<close> is \<open>i / n\<close>, the library's
  relative frequency of coefficient \<open>i\<close>.
\<close>

definition Freq :: "nat \<Rightarrow> nat \<Rightarrow> float64" where
  "Freq n i = Fin (real i / real n)"

definition flog10 :: "float64 \<Rightarrow> float64" where
  "flog10 f =
     (case f of
        Fin x \<Rightarrow> (if 0 < x then Fin (log 10 x) else if x = 0 then NInf else NaN)
      | PInf \<Rightarrow> PInf
      | NInf \<Rightarrow> NaN
      | NaN \<Rightarrow> NaN)"

text \<open>The Blackman window coefficient of index \<open>i\<close> (lines 62 to 64).\<close>

definition blackman :: "nat \<Rightarrow> float64" where
  "blackman i =
     (let t = real i / real (fftSize - 1)
      in Fin (42 / 100 - 5 / 10 * cos (2 * pi * t) + 8 / 100 * cos (4 * pi * t)))"

text \<open>The loop of lines 38 to 46: the sum of the samples and the largest absolute value.\<close>

definition sumAndMaxAbs :: "float64 list \<Rightarrow> float64 \<times> float64" where
  "sumAndMaxAbs data =
     foldl (\<lambda>acc v. (fadd (fst acc) v, if fless (snd acc) (fabs v) then fabs v else snd acc))
       (Fin 0, Fin 0) data"

definition windowedInput :: "float64 list \<Rightarrow> float64 list" where
  "windowedInput data =
     (let mean = fdiv (fst (sumAndMaxAbs data)) (Fin (real (length data)))
      in map (\<lambda>i. fmul (if i < length data then fsub (data ! i) mean else Fin 0) (blackman i))
           [0 ..< fftSize])"

definition windowSum :: float64 where
  "windowSum = foldl (\<lambda>s i. fadd s (blackman i)) (Fin 0) [0 ..< fftSize]"

text \<open>
  The magnitude in dB of bin \<open>i\<close> (lines 84 to 101). \<open>coeffAbs input i\<close> stands for
  \<open>cmplx.Abs(fft.Coefficients(nil, input)[i])\<close>, the transform of the library.
\<close>

definition magnitudeDb ::
  "(float64 list \<Rightarrow> nat \<Rightarrow> float64) \<Rightarrow> float64 list \<Rightarrow> nat \<Rightarrow> float64" where
  "magnitudeDb coeffAbs data i =
     (let numFreqs = fftSize div 2 + 1;
          windowCorrection = fdiv (Fin (real fftSize)) windowSum;
          magnitude0 = fmul (coeffAbs (windowedInput data) i)
                            (fdiv windowCorrection (Fin (real fftSize)));
          magnitude = (if 0 < i \<and> i < numFreqs - 1 then fmul magnitude0 (Fin 2)
                       else magnitude0);
          power = fmul magnitude (snd (sumAndMaxAbs data))
      in if fless (Fin 0) power then fmul (Fin 20) (flog10 power) else MinMagnitude)"

definition ComputeFFT ::
  "(float64 list \<Rightarrow> nat \<Rightarrow> float64) \<Rightarrow> float64 list \<Rightarrow> float64 \<Rightarrow> error + FFTResult" where
  "ComputeFFT coeffAbs data sampleRate =
     (if length data = 0 then Inl EmptyInputData
      else
        (let numFreqs = fftSize div 2 + 1
         in Inr \<lparr>Frequencies =
                   map (\<lambda>i. fmul (Freq fftSize i) (fdiv sampleRate (Fin 2))) [0 ..< numFreqs],
                 Magnitudes = map (magnitudeDb coeffAbs data) [0 ..< numFreqs],
                 Harmonics = [],
                 SampleRate = sampleRate\<rparr>))"

section \<open>The specification's formula for the circular filter\<close>

text \<open>
  The output of \<open>apply\<close> at index \<open>i\<close> in the words of the specification (4.5): the
  sum over \<open>j = 0 .. N - 1\<close> of \<open>coefficients[j] \<cdot> signal[(j + i) mod N]\<close>, added up
  in the order of \<open>j\<close>.
\<close>

definition specCircularSum :: "float64 list \<Rightarrow> float64 list \<Rightarrow> nat \<Rightarrow> float64" where
  "specCircularSum coefficients signal i =
     foldl (\<lambda>s j. fadd s (fmul (coefficients ! j) (signal ! ((j + i) mod length signal))))
       (Fin 0) [0 ..< length signal]"

section \<open>The bins of the downsampler and the specification's conditions\<close>

text \<open>
  The start indices that the loop over the bins visits from \<open>start\<close> on: \<open>start\<close>,
  \<open>start + binSize\<close>, and so on below \<open>n\<close> (the multiples of \<open>binSize\<close> when
  \<open>start = 0\<close>, lemma \<open>binStarts_multiples\<close>).
\<close>

function binStarts :: "nat \<Rightarrow> nat \<Rightarrow> nat \<Rightarrow> nat list" where
  "binStarts n binSize start =
     (if start < n \<and> 0 < binSize then start # binStarts n binSize (start + binSize) else [])"
  by pat_completeness auto
termination
proof (relation "measure (\<lambda>(n, binSize, start). n - start)")
  show "wf (measure (\<lambda>(n, binSize, start). n - start))"
    by (rule wf_measure)
next
  fix n binSize start :: nat
  assume "start < n \<and> 0 < binSize"
  then show "((n, binSize, start + binSize), (n, binSize, start))
      \<in> measure (\<lambda>(n, binSize, start). n - start)"
    by simp arith
qed

declare binStarts.simps [simp del]





section \<open>Properties of the downsampler\<close>

subsection \<open>Order on \<open>float64\<close> and the scan of a bin\<close>








lemma length_binIndices: "length (binIndices vals start endIdx) \<le> 3"
  by (simp add: binIndices_def Let_def)

subsection \<open>A bin size that covers the whole series\<close>

text \<open>
  Claim C2 says that \<open>downsample\<close> returns the series unchanged whenever
  \<open>binSize \<ge> len(series)\<close>. The code returns its input only under its guard
  (at most 2 points, or \<open>binSize \<le> 1\<close>). The theorem states what it does for
  every \<open>binSize \<ge> len(series)\<close>: under the guard the series comes back unchanged, and
  otherwise the whole series is one bin and the output is that bin's selection.
\<close>

theorem downsample_large_bin:
  assumes "int (length tms) \<le> binSize" and "length vals = length tms"
  shows "dynamicDownsample tms vals binSize =
           Inr (if length tms \<le> 2 \<or> binSize \<le> 1 then (tms, vals)
                else processBin tms vals 0 (length tms))"
proof (cases "length tms \<le> 2 \<or> binSize \<le> 1")
  case True
  then show ?thesis by (simp add: dynamicDownsample_def)
next
  case False
  then have len: "2 < length tms" and bs: "1 < binSize" by simp_all
  from assms(1) bs have nb: "length tms \<le> nat binSize" and pos: "0 < nat binSize" by simp_all
  have stop: "binLoop tms vals (nat binSize) (nat binSize) out = out" for out
    using nb by (subst binLoop.simps) simp
  have "binLoop tms vals (nat binSize) 0 ([], []) = processBin tms vals 0 (length tms)"
    using len nb pos by (subst binLoop.simps) (auto simp: stop Let_def)
  with False assms(2) show ?thesis by (simp add: dynamicDownsample_def)
qed

theorem downsample_large_bin_witness:
  "dynamicDownsample [Fin 0, Fin 1] [Fin 3, Fin 4] 7 = Inr ([Fin 0, Fin 1], [Fin 3, Fin 4]) \<and>
   dynamicDownsample [Fin 0, Fin 1, Fin 2] [Fin 3, Fin 4, Fin 9] 3 = Inr ([Fin 2], [Fin 9])"
  using downsample_large_bin [of "[Fin 0, Fin 1]" 7 "[Fin 3, Fin 4]"]
    downsample_large_bin [of "[Fin 0, Fin 1, Fin 2]" 3 "[Fin 3, Fin 4, Fin 9]"]
  by (simp add: processBin_def binIndices_def scanBin_def scanStep_def binAvg_def fsub_def
      Let_def upt_rec)

text \<open>
  The series of Example 3 of the specification, with \<open>binSize = 5 = len(series)\<close>:
  five points go in and two come out, the maximum and the average point.
\<close>

theorem downsample_large_bin_changes:
  "int (length [Fin 0, Fin 1, Fin 2, Fin 3, Fin 4]) \<le> 5 \<and>
   dynamicDownsample [Fin 0, Fin 1, Fin 2, Fin 3, Fin 4] [Fin 1, Fin 5, Fin 1, Fin 1, Fin 1] 5 =
     Inr ([Fin 1, Fin 2], [Fin 5, Fin (9 / 5)])"
  by (simp add: dynamicDownsample_def binLoop.simps processBin_def binIndices_def scanBin_def
      scanStep_def binAvg_def fsub_def Let_def upt_rec)

subsection \<open>Points per bin\<close>

text \<open>
  Claim C3 says that each bin contributes at least 1 and at most 4 points. The upper
  bound holds: a bin appends at most 4 points, as many times as values. The lower
  bound is 0, not 1: a bin that keeps no input point appends nothing.
\<close>

theorem bin_emits_at_most_four:
  "length (fst (processBin tms vals start endIdx)) \<le> 4 \<and>
   length (snd (processBin tms vals start endIdx)) = length (fst (processBin tms vals start endIdx))"
  using length_binIndices [of vals start endIdx]
  by (simp add: processBin_def Let_def)

text \<open>
  A bin of three equal values: minimum and maximum are both the first point, so no
  point is kept, and the average point is appended only after a kept point.
\<close>

theorem bin_emits_nothing:
  "processBin [Fin 0, Fin 1, Fin 2] [Fin 1, Fin 1, Fin 1] 0 3 = ([], []) \<and>
   dynamicDownsample [Fin 0, Fin 1, Fin 2] [Fin 1, Fin 1, Fin 1] 3 = Inr ([], [])"
  by (simp add: dynamicDownsample_def binLoop.simps processBin_def binIndices_def scanBin_def
      scanStep_def binAvg_def fsub_def Let_def upt_rec)

subsection \<open>The extrema a bin emits\<close>



lemma binStarts_multiples:
  "s \<in> set (binStarts n b start) \<longleftrightarrow> 0 < b \<and> s < n \<and> (\<exists>k. s = start + k * b)"
proof (induction n b start rule: binStarts.induct)
  case (1 n b start)
  show ?case
  proof (cases "start < n \<and> 0 < b")
    case True
    then have st: "binStarts n b start = start # binStarts n b (start + b)"
      by (subst binStarts.simps) simp
    show ?thesis
    proof
      assume "s \<in> set (binStarts n b start)"
      with st have "s = start \<or> s \<in> set (binStarts n b (start + b))" by simp
      then show "0 < b \<and> s < n \<and> (\<exists>k. s = start + k * b)"
      proof
        assume "s = start"
        with True have "s = start + 0 * b" and "s < n" by simp_all
        with True show ?thesis by blast
      next
        assume "s \<in> set (binStarts n b (start + b))"
        with "1.IH" [OF True] obtain k where "s < n" and "s = start + b + k * b" by blast
        then have "s = start + Suc k * b" by simp
        with True \<open>s < n\<close> show ?thesis by blast
      qed
    next
      assume r: "0 < b \<and> s < n \<and> (\<exists>k. s = start + k * b)"
      then obtain k where k: "s = start + k * b" by blast
      show "s \<in> set (binStarts n b start)"
      proof (cases k)
        case 0
        with k st show ?thesis by simp
      next
        case (Suc m)
        with k have "s = start + b + m * b" by simp
        with r "1.IH" [OF True] have "s \<in> set (binStarts n b (start + b))" by blast
        with st show ?thesis by simp
      qed
    qed
  next
    case False
    then have e: "binStarts n b start = []"
      by (subst binStarts.simps) auto
    show ?thesis
    proof
      assume "s \<in> set (binStarts n b start)"
      with e show "0 < b \<and> s < n \<and> (\<exists>k. s = start + k * b)" by simp
    next
      assume r: "0 < b \<and> s < n \<and> (\<exists>k. s = start + k * b)"
      then obtain k where "s = start + k * b" by blast
      then have "start \<le> s" by simp
      with r False show "s \<in> set (binStarts n b start)" by simp
    qed
  qed
qed







text \<open>
  An extremum can also be dropped by the 5% threshold alone. A bin of 21 values
  \<open>99, 0, 100, \<dots>, 100\<close>: the maximum 100, at index 2, deviates from the average
  \<open>1999/21\<close> by less than 5% of the range, and only the first point and the minimum
  are kept.
\<close>

lemma downsample_drops_flat_maximum:
  "dynamicDownsample (map (\<lambda>i. Fin (real i)) [0 ..< 21])
       ([Fin 99, Fin 0] @ replicate 19 (Fin 100)) 21
     = Inr ([Fin 0, Fin 1, Fin 10], [Fin 99, Fin 0, Fin (1999 / 21)])"
  by code_simp





section \<open>Properties of the FIR pipeline\<close>

subsection \<open>The circular filter\<close>

lemma collect_Inr:
  "(\<And>i. i \<in> set js \<Longrightarrow> f i = Inr (g i)) \<Longrightarrow> collect f js = Inr (map g js)"
  by (induction js) simp_all

lemma length_roll: "length (roll data shift) = length data"
  by (simp add: roll_def)

lemma nth_roll: "j < length data \<Longrightarrow> roll data shift ! j = data ! ((j + shift) mod length data)"
  by (simp add: roll_def)

lemma dotProduct_roll:
  assumes "length coeffs = length signal"
  shows "dotProduct coeffs (roll signal i) = Inr (specCircularSum coeffs signal i)"
proof -
  have "foldl (\<lambda>s j. fadd s (fmul (coeffs ! j) (roll signal i ! j))) (Fin 0) [0 ..< length signal]
      = foldl (\<lambda>s j. fadd s (fmul (coeffs ! j) (signal ! ((j + i) mod length signal))))
          (Fin 0) [0 ..< length signal]"
    by (rule foldl_cong) (simp_all add: nth_roll)
  with assms show ?thesis
    by (simp add: dotProduct_def length_roll specCircularSum_def)
qed

lemma applyFIRFilter_eq:
  "length coeffs = length signal \<Longrightarrow>
     applyFIRFilter signal coeffs = Inr (map (specCircularSum coeffs signal) [0 ..< length signal])"
  unfolding applyFIRFilter_def by (rule collect_Inr) (simp add: dotProduct_roll)

lemma foldl_fadd_Fin:
  "foldl (\<lambda>s j. fadd s (Fin (g j))) (Fin a) js = Fin (a + sum_list (map g js))"
  by (induction js arbitrary: a) (simp_all add: add.assoc)

lemma specCircularSum_finite:
  "specCircularSum (map Fin c) (map Fin x) i =
     Fin (\<Sum>j = 0 ..< length x. c ! j * x ! ((j + i) mod length x))" if "length c = length x"
proof -
  have "foldl (\<lambda>s j. fadd s (fmul (map Fin c ! j) (map Fin x ! ((j + i) mod length x)))) (Fin 0)
          [0 ..< length x]
      = foldl (\<lambda>s j. fadd s (Fin (c ! j * x ! ((j + i) mod length x)))) (Fin 0) [0 ..< length x]"
  proof (intro foldl_cong refl)
    fix a j assume "j \<in> set [0 ..< length x]"
    then have "j < length x" by simp
    moreover from this have "(j + i) mod length x < length x"
      by (intro mod_less_divisor) arith
    ultimately have "j < length x" and "(j + i) mod length x < length x" .
    with that show "fadd a (fmul (map Fin c ! j) (map Fin x ! ((j + i) mod length x)))
        = fadd a (Fin (c ! j * x ! ((j + i) mod length x)))"
      by simp
  qed
  then show ?thesis
    by (simp add: specCircularSum_def foldl_fadd_Fin interv_sum_list_conv_sum_set_nat)
qed

text \<open>
  On finite values the specification's formula is the sum
  \<open>\<Sum>j<N. c[j] \<cdot> x[(j + i) mod N]\<close> of real numbers (lemma \<open>specCircularSum_finite\<close>).

  Claim C6: for \<open>signal\<close> and \<open>coefficients\<close> of equal length \<open>N \<ge> 1\<close> and every
  index \<open>i < N\<close>, \<open>applyFIRFilter\<close> returns an output of length \<open>N\<close> whose entry \<open>i\<close>
  is the dot product of the coefficients with the signal shifted left cyclically by
  \<open>i\<close>.
\<close>

theorem applyFIRFilter_circular:
  assumes "length coeffs = length signal" and "1 \<le> length signal" and "i < length signal"
  shows "\<exists>out. applyFIRFilter signal coeffs = Inr out \<and> length out = length signal \<and>
           out ! i = specCircularSum coeffs signal i"
  using assms by (simp add: applyFIRFilter_eq)

theorem applyFIRFilter_circular_witness:
  "\<exists>out. applyFIRFilter [Fin 1, Fin 2, Fin 3] [Fin 1, Fin 0, Fin 2] = Inr out \<and> length out = 3 \<and>
     out ! 1 = Fin 4"
proof -
  have "specCircularSum [Fin 1, Fin 0, Fin 2] [Fin 1, Fin 2, Fin 3] 1 = Fin 4"
    by (simp add: specCircularSum_def upt_rec)
  with applyFIRFilter_circular [of "[Fin 1, Fin 0, Fin 2]" "[Fin 1, Fin 2, Fin 3]" 1]
  show ?thesis by (simp add: numeral_3_eq_3)
qed

subsection \<open>The reference square wave on a degenerate signal\<close>

lemma fless_NaN_right: "fless a NaN = False"
  by (cases a) simp_all

lemma levels_high_empty:
  "\<forall>v\<in>set xs. \<not> fless m v \<Longrightarrow>
     highValue (foldl (levelStep m) acc xs) = highValue acc \<and>
     highCount (foldl (levelStep m) acc xs) = highCount acc"
  by (induction xs arbitrary: acc) (simp_all add: levelStep_def)

lemma levels_low_empty:
  "\<forall>v\<in>set xs. fless m v \<Longrightarrow>
     lowValue (foldl (levelStep m) acc xs) = lowValue acc \<and>
     lowCount (foldl (levelStep m) acc xs) = lowCount acc"
  by (induction xs arbitrary: acc) (simp_all add: levelStep_def)

lemma single_not_above_mean: "\<not> fless (calculateMean [v]) v"
  by (cases v) (simp_all add: calculateMean_def)

lemma first_half_of_single: "\<not> fless m (calculateMean (take (length [v] div 2) [v]))"
  by (simp add: calculateMean_def fless_NaN_right)

text \<open>
  Claim C5 says that \<open>synthesize\<close> fails with \<open>DegenerateSignalError\<close> when all
  samples lie on one side of the mean. \<open>generatePerfectSquareWave\<close> has no error
  result, and a \<open>float64\<close> division by zero does not panic. What holds instead: for
  a non-empty signal with no sample above its mean, or with every sample above it,
  the function returns a waveform of the length of the signal, and the level of the
  empty partition, \<open>0/0 = NaN\<close>, is in it.
\<close>

theorem square_wave_degenerate:
  assumes "signal \<noteq> []"
    and "(\<forall>v\<in>set signal. \<not> fless (calculateMean signal) v) \<or>
         (\<forall>v\<in>set signal. fless (calculateMean signal) v)"
  shows "length (generatePerfectSquareWave signal) = length signal \<and>
         NaN \<in> set (generatePerfectSquareWave signal)"
proof
  show "length (generatePerfectSquareWave signal) = length signal"
    by (simp add: generatePerfectSquareWave_def Let_def)
next
  let ?n = "length signal"
  let ?acc = "splitLevels signal"
  let ?high = "fdiv (highValue ?acc) (Fin (real (highCount ?acc)))"
  let ?low = "fdiv (lowValue ?acc) (Fin (real (lowCount ?acc)))"
  from assms(1) have n: "0 < ?n - ?n div 2" by (cases signal) simp_all
  from assms(2) show "NaN \<in> set (generatePerfectSquareWave signal)"
  proof
    assume "\<forall>v\<in>set signal. \<not> fless (calculateMean signal) v"
    then have high: "?high = NaN"
      using levels_high_empty [of signal "calculateMean signal"]
      by (simp add: splitLevels_def)
    show ?thesis
    proof (cases "?n = 1")
      case True
      then obtain v where "signal = [v]" by (cases signal) simp_all
      with high first_half_of_single [of "calculateMean [v]" v] show ?thesis
        by (simp add: generatePerfectSquareWave_def Let_def)
    next
      case False
      moreover from assms(1) have "0 < ?n" by simp
      ultimately have "0 < ?n div 2" by arith
      with n high show ?thesis
        by (simp add: generatePerfectSquareWave_def Let_def)
    qed
  next
    assume low_empty: "\<forall>v\<in>set signal. fless (calculateMean signal) v"
    then have low: "?low = NaN"
      using levels_low_empty [of signal "calculateMean signal"]
      by (simp add: splitLevels_def)
    have "?n \<noteq> 1"
    proof
      assume "?n = 1"
      then obtain v where "signal = [v]" by (cases signal) simp_all
      with low_empty single_not_above_mean [of v] show False by simp
    qed
    moreover from assms(1) have "0 < ?n" by simp
    ultimately have "0 < ?n div 2" by arith
    with n low show ?thesis
      by (simp add: generatePerfectSquareWave_def Let_def)
  qed
qed

theorem square_wave_degenerate_witness:
  "length (generatePerfectSquareWave [Fin 2, Fin 2, Fin 2]) = 3 \<and>
   NaN \<in> set (generatePerfectSquareWave [Fin 2, Fin 2, Fin 2])"
proof -
  have "\<forall>v\<in>set [Fin 2, Fin 2, Fin 2]. \<not> fless (calculateMean [Fin 2, Fin 2, Fin 2]) v"
    by (simp add: calculateMean_def)
  with square_wave_degenerate [of "[Fin 2, Fin 2, Fin 2]"] show ?thesis by simp
qed

text \<open>
  Two equal samples: none is above the mean, the high partition is empty, and the
  result holds the low level and \<open>NaN\<close>.
\<close>

theorem square_wave_returns_NaN:
  "generatePerfectSquareWave [Fin 1, Fin 1] = [Fin 1, NaN]"
  by (simp add: generatePerfectSquareWave_def splitLevels_def levelStep_def calculateMean_def
      Let_def)

subsection \<open>Resampling a source that is too short\<close>

lemma collect_const:
  "(\<And>i. i \<in> set js \<Longrightarrow> f i = Inr c) \<Longrightarrow> collect f js = Inr (replicate (length js) c)"
  by (induction js) simp_all

lemma resampleAt_single: "resampleAt [x] (Fin 0) i = Inr x"
  by (simp add: resampleAt_def toInt_def Let_def)

lemma resample_empty_panics:
  assumes "2 \<le> newLen"
  shows "resample [] newLen = Inl IndexOutOfRange"
proof -
  from assms obtain k where k: "[0 ..< newLen] = 0 # k"
    by (cases newLen) (simp_all add: upt_conv_Cons)
  from assms have "real_of_int (int newLen - 1) \<noteq> 0" by simp
  then have "resampleAt [] (fdiv (Fin (real_of_int (int (length ([] :: float64 list)) - 1)))
       (Fin (real_of_int (int newLen - 1)))) 0 = Inl IndexOutOfRange"
    by (simp add: resampleAt_def toInt_def Let_def)
  with k show ?thesis by (simp add: resample_def Let_def)
qed

text \<open>
  Claim C9 says that for \<open>targetLength \<ge> 2\<close> resampling a source of length 0 or 1
  fails with \<open>InsufficientDataError\<close>. \<open>resample\<close> has no error result. For a
  source of one sample the ratio is \<open>0 / (targetLength - 1) = 0\<close>, every position is
  0, and the clamping branch copies the sample: the call succeeds with
  \<open>targetLength\<close> copies of it, and nothing is divided by zero. (On an empty source
  the first read \<open>data[0]\<close> is out of range, lemma \<open>resample_empty_panics\<close>.)
\<close>

theorem resample_single_sample:
  assumes "2 \<le> newLen"
  shows "resample [x] newLen = Inr (replicate newLen x)"
proof -
  from assms have "fdiv (Fin (real_of_int (int (length [x]) - 1))) (Fin (real_of_int (int newLen - 1)))
      = Fin 0"
    by simp
  then have "resample [x] newLen = collect (resampleAt [x] (Fin 0)) [0 ..< newLen]"
    by (simp add: resample_def)
  also have "\<dots> = Inr (replicate (length [0 ..< newLen]) x)"
    by (rule collect_const) (rule resampleAt_single)
  finally show ?thesis by simp
qed

theorem resample_single_sample_witness:
  "resample [Fin 7] 3 = Inr [Fin 7, Fin 7, Fin 7]"
  using resample_single_sample [of 3 "Fin 7"] by (simp add: numeral_3_eq_3)

text \<open>A source of one sample resampled to two points.\<close>

theorem resample_single_succeeds:
  "resample [Fin 7] 2 = Inr [Fin 7, Fin 7]"
  by (simp add: resample_def resampleAt_def toInt_def Let_def upt_rec)

subsection \<open>The least-squares solve on a zero pivot\<close>

lemma foldl_invariant:
  "P a \<Longrightarrow> (\<And>a x. P a \<Longrightarrow> P (f a x)) \<Longrightarrow> P (foldl f a xs)"
  by (induction xs arbitrary: a) simp_all

lemma update_entry_square:
  assumes "length M = n" and "\<forall>r\<in>set M. length r = n"
  shows "length (M[i := (M ! i)[j := v]]) = n \<and> (\<forall>r\<in>set (M[i := (M ! i)[j := v]]). length r = n)"
proof (cases "i < length M")
  case True
  then have "M ! i \<in> set M" by (rule nth_mem)
  with assms(2) have "length ((M ! i)[j := v]) = n" by simp
  moreover have "set (M[i := (M ! i)[j := v]]) \<subseteq> insert ((M ! i)[j := v]) (set M)"
    by (rule set_update_subset_insert)
  ultimately have "\<forall>r\<in>set (M[i := (M ! i)[j := v]]). length r = n"
    using assms(2) by blast
  with assms(1) show ?thesis by simp
next
  case False
  then have "length M \<le> i" by arith
  then have "M[i := (M ! i)[j := v]] = M" by (rule list_update_beyond)
  with assms show ?thesis by simp
qed

lemma addRegularization_square:
  assumes "length M = n" and "\<forall>r\<in>set M. length r = n"
  shows "length (addRegularization M k reg) = n \<and>
         (\<forall>r\<in>set (addRegularization M k reg). length r = n)"
  unfolding addRegularization_def Let_def
proof (rule foldl_invariant [where P = "\<lambda>M. length M = n \<and> (\<forall>r\<in>set M. length r = n)"])
  from assms show "length M = n \<and> (\<forall>r\<in>set M. length r = n)" by blast
next
  fix a :: "float64 list list" and x :: nat and v
  assume "length a = n \<and> (\<forall>r\<in>set a. length r = n)"
  then have "length a = n" and "\<forall>r\<in>set a. length r = n" by blast+
  then show "length (a[x := (a ! x)[x := v]]) = n \<and>
      (\<forall>r\<in>set (a[x := (a ! x)[x := v]]). length r = n)"
    by (rule update_entry_square)
qed

lemma transposeMatrix_square:
  assumes "0 < n" and "length M = n" and "\<forall>r\<in>set M. length r = n"
  shows "\<exists>T. transposeMatrix M = Inr T \<and> length T = n \<and> (\<forall>r\<in>set T. length r = n)"
proof -
  from assms have ne: "M \<noteq> []" and c: "length (M ! 0) = n" by auto
  from assms(3) have "\<not> list_ex (\<lambda>r. length r < n) M" by (simp add: list_ex_iff)
  with ne c assms(2) show ?thesis
    by (auto simp: transposeMatrix_def Let_def)
qed

lemma matrixMultiply_square:
  assumes "0 < n" and "length a = n" and "\<forall>r\<in>set a. length r = n"
    and "length b = n" and "\<forall>r\<in>set b. length r = n"
  shows "\<exists>c. matrixMultiply a b = Inr c \<and> length c = n \<and> (\<forall>r\<in>set c. length r = n)"
proof -
  from assms have ne: "b \<noteq> []" and c: "length (b ! 0) = n" by auto
  from assms have "\<not> list_ex (\<lambda>r. length r < n) a" and "\<not> list_ex (\<lambda>r. length r < n) b"
    by (simp_all add: list_ex_iff)
  with ne c assms(2,4) show ?thesis
    by (auto simp: matrixMultiply_def Let_def)
qed

lemma matrixVectorMultiply_square:
  assumes "length m = n" and "\<forall>r\<in>set m. length r = n" and "length v = n"
  shows "\<exists>w. matrixVectorMultiply m v = Inr w \<and> length w = n"
proof -
  from assms have "\<not> list_ex (\<lambda>r. length v < length r) m" by (simp add: list_ex_iff)
  with assms(1) show ?thesis by (simp add: matrixVectorMultiply_def)
qed

lemma length_backStep: "length (backStep A b n x i) = length x"
  unfolding backStep_def
  by (rule foldl_invariant [where P = "\<lambda>y. length y = length x"]) simp_all

lemma solveLinearSystem_square:
  assumes "length A = n" and "\<forall>r\<in>set A. length r = n" and "length b = n"
  shows "\<exists>x. solveLinearSystem A b = Inr x \<and> length x = n"
proof -
  from assms have "\<not> list_ex (\<lambda>r. length r < n) A" by (simp add: list_ex_iff)
  moreover have "length (foldl (backStep M c n) (replicate n (Fin 0)) js) = n" for M c js
    by (rule foldl_invariant [where P = "\<lambda>y. length y = n"]) (simp_all add: length_backStep)
  ultimately show ?thesis using assms(1,3)
    by (simp add: solveLinearSystem_def Let_def)
qed

text \<open>
  Rows are never exchanged: the system \<open>y = 1, x = 2\<close>, solved by exchanging its two
  rows, has the pivot 0 in its first row, and the solve returns \<open>NaN\<close>s.
\<close>

lemma solve_does_not_swap_rows:
  "solveLinearSystem [[Fin 0, Fin 1], [Fin 1, Fin 0]] [Fin 1, Fin 2] = Inr [NaN, NaN]"
  by code_simp

lemma fdiv_zero_not_finite: "\<not> isFinite (fdiv a (Fin 0))"
  by (cases a) (simp_all add: isFinite_def)

lemma fsub_not_finite: "\<not> isFinite a \<Longrightarrow> \<not> isFinite (fsub a t)"
  by (cases a; cases t) (simp_all add: isFinite_def fsub_def)

text \<open>
  Forward elimination: step \<open>i\<close> divides \<open>b[i]\<close> by the pivot, and no later step
  touches \<open>b[i]\<close>.
\<close>

lemma eliminate_rows_snd:
  "i \<notin> set ks \<Longrightarrow> snd (foldl (eliminateRow p n) Ab ks) ! i = snd Ab ! i"
  by (induction ks arbitrary: Ab) (simp_all add: eliminateRow_def Let_def)

lemma eliminate_rows_length:
  "length (snd (foldl (eliminateRow p n) Ab ks)) = length (snd Ab)"
  by (induction ks arbitrary: Ab) (simp_all add: eliminateRow_def Let_def)

lemma forwardStep_length: "length (snd (forwardStep n Ab i)) = length (snd Ab)"
  by (simp add: forwardStep_def Let_def eliminate_rows_length)

lemma forwardStep_at_pivot:
  "i < length (snd Ab) \<Longrightarrow>
     snd (forwardStep n Ab i) ! i = fdiv (snd Ab ! i) (fst Ab ! i ! i)"
  by (simp add: forwardStep_def Let_def eliminate_rows_snd)

lemma forwardStep_above:
  "i < j \<Longrightarrow> snd (forwardStep n Ab j) ! i = snd Ab ! i"
  by (simp add: forwardStep_def Let_def eliminate_rows_snd)

lemma forward_length:
  "length (snd (foldl (forwardStep n) Ab ks)) = length (snd Ab)"
  by (induction ks arbitrary: Ab) (simp_all add: forwardStep_length)

lemma forward_later_steps:
  "i < k \<Longrightarrow>
     snd (foldl (forwardStep n) Ab [0 ..< k]) ! i = snd (foldl (forwardStep n) Ab [0 ..< Suc i]) ! i"
proof (induction k)
  case 0
  then show ?case by simp
next
  case (Suc k)
  show ?case
  proof (cases "i = k")
    case True
    then show ?thesis by simp
  next
    case False
    with Suc.prems have "i < k" by simp
    with Suc.IH show ?thesis by (simp add: forwardStep_above)
  qed
qed

lemma forward_zero_pivot:
  assumes "i < length A" and "length A \<le> length b" and "pivotAt A b i = Fin 0"
  shows "\<not> isFinite (snd (foldl (forwardStep (length A)) (A, b) [0 ..< length A]) ! i)"
proof -
  let ?n = "length A"
  let ?S = "foldl (forwardStep ?n) (A, b) [0 ..< i]"
  from assms(1,2) have "i < length (snd ?S)" by (simp add: forward_length)
  then have "snd (forwardStep ?n ?S i) ! i = fdiv (snd ?S ! i) (fst ?S ! i ! i)"
    by (rule forwardStep_at_pivot)
  with assms(3) have "\<not> isFinite (snd (foldl (forwardStep ?n) (A, b) [0 ..< Suc i]) ! i)"
    by (simp add: pivotAt_def fdiv_zero_not_finite)
  with forward_later_steps [OF assms(1), of ?n "(A, b)"] show ?thesis by simp
qed

text \<open>
  Back substitution: \<open>x[i]\<close> starts from \<open>b[i]\<close>, only subtractions follow, and no
  other step touches \<open>x[i]\<close>.
\<close>

lemma back_inner_other:
  "i \<noteq> j \<Longrightarrow> foldl (\<lambda>y k. y[j := g y k]) y0 ks ! i = y0 ! i"
  by (induction ks arbitrary: y0) simp_all

lemma back_inner_same:
  "j < length y0 \<Longrightarrow> \<not> isFinite (y0 ! j) \<Longrightarrow>
     \<not> isFinite (foldl (\<lambda>y k. y[j := fsub (y ! j) (h y k)]) y0 ks ! j)"
  by (induction ks arbitrary: y0) (simp_all add: fsub_not_finite)

lemma backStep_other: "i \<noteq> j \<Longrightarrow> backStep M c n x j ! i = x ! i"
  by (simp add: backStep_def back_inner_other)

lemma backStep_same:
  "j < length x \<Longrightarrow> \<not> isFinite (c ! j) \<Longrightarrow> \<not> isFinite (backStep M c n x j ! j)"
  unfolding backStep_def by (rule back_inner_same) simp_all

lemma backStep_keeps:
  "i < length x \<Longrightarrow> \<not> isFinite (c ! i) \<Longrightarrow> \<not> isFinite (x ! i) \<Longrightarrow>
     \<not> isFinite (backStep M c n x j ! i)"
  by (cases "i = j") (simp_all add: backStep_same backStep_other)

lemma back_keeps:
  "i < length x \<Longrightarrow> \<not> isFinite (c ! i) \<Longrightarrow> \<not> isFinite (x ! i) \<Longrightarrow>
     \<not> isFinite (foldl (backStep M c n) x js ! i)"
  by (induction js arbitrary: x) (simp_all add: backStep_keeps length_backStep)

lemma back_not_finite:
  "i \<in> set js \<Longrightarrow> i < length x \<Longrightarrow> \<not> isFinite (c ! i) \<Longrightarrow>
     \<not> isFinite (foldl (backStep M c n) x js ! i)"
proof (induction js arbitrary: x)
  case Nil
  then show ?case by simp
next
  case (Cons j js)
  show ?case
  proof (cases "i = j")
    case True
    with Cons.prems have "\<not> isFinite (backStep M c n x j ! i)" by (simp add: backStep_same)
    with Cons.prems show ?thesis by (simp add: back_keeps length_backStep)
  next
    case False
    with Cons.prems have "i \<in> set js" by simp
    with Cons.prems Cons.IH [of "backStep M c n x j"] show ?thesis
      by (simp add: length_backStep)
  qed
qed

lemma solveLinearSystem_zero_pivot:
  assumes "length A = n" and "\<forall>r\<in>set A. length r = n" and "length b = n"
    and "i < n" and "pivotAt A b i = Fin 0"
  shows "\<exists>x. solveLinearSystem A b = Inr x \<and> length x = n \<and> \<not> isFinite (x ! i)"
proof -
  let ?S = "foldl (forwardStep n) (A, b) [0 ..< n]"
  from assms have nf: "\<not> isFinite (snd ?S ! i)"
    using forward_zero_pivot [of i A b] by simp
  from assms(4) have "i \<in> set (rev [0 ..< n])" by simp
  moreover from assms(4) have "i < length (replicate n (Fin 0))" by simp
  ultimately have "\<not> isFinite (foldl (backStep (fst ?S) (snd ?S) n) (replicate n (Fin 0))
      (rev [0 ..< n]) ! i)"
    using nf by (rule back_not_finite)
  moreover from solveLinearSystem_square [OF assms(1,2,3)] obtain x where
    x: "solveLinearSystem A b = Inr x" "length x = n" by blast
  moreover from assms have "\<not> list_ex (\<lambda>r. length r < n) A" by (simp add: list_ex_iff)
  ultimately show ?thesis using assms(1,3)
    by (simp add: solveLinearSystem_def Let_def)
qed

lemma normalEquations_square:
  assumes "length perfect = length imperfect" and "1 \<le> length imperfect"
  shows "\<exists>M v. normalEquations imperfect perfect regParam = Inr (M, v) \<and>
           length M = length imperfect \<and> (\<forall>r\<in>set M. length r = length imperfect) \<and>
           length v = length imperfect"
proof -
  let ?n = "length imperfect"
  let ?A = "map (roll imperfect) [0 ..< ?n]"
  from assms(2) have pos: "0 < ?n" by arith
  have A: "length ?A = ?n" "\<forall>r\<in>set ?A. length r = ?n" by (simp_all add: roll_def)
  from transposeMatrix_square [OF pos A] obtain T where
    T: "transposeMatrix ?A = Inr T" "length T = ?n" "\<forall>r\<in>set T. length r = ?n" by blast
  from matrixMultiply_square [OF pos T(2,3) A] obtain C where
    C: "matrixMultiply T ?A = Inr C" "length C = ?n" "\<forall>r\<in>set C. length r = ?n" by blast
  from matrixVectorMultiply_square [OF T(2,3) assms(1)] obtain w where
    w: "matrixVectorMultiply T perfect = Inr w" "length w = ?n" by blast
  from addRegularization_square [OF C(2,3)] have
    "length (addRegularization C ?n regParam) = ?n"
    "\<forall>r\<in>set (addRegularization C ?n regParam). length r = ?n" by blast+
  with T(1) C(1) w show ?thesis
    by (simp add: normalEquations_def Let_def)
qed

text \<open>
  Claim C4 says that a zero pivot makes \<open>solve\<close> fail with \<open>SingularSystemError\<close>.
  \<open>solveLinearSystem\<close> and \<open>regularizedLeastSquares\<close> return a slice and nothing else;
  the pivot is not tested, and the division by a zero pivot is a \<open>float64\<close> division.
  What holds instead: for every measured and reference input of equal length \<open>N \<ge> 1\<close>
  and every regularization, the normal equations are built and the solve returns a
  vector of \<open>N\<close> coefficients; whenever the pivot read at step \<open>i\<close> is zero,
  coefficient \<open>i\<close> of that vector is \<open>NaN\<close> or an infinity.
\<close>

theorem solve_returns_coefficients:
  assumes "length perfect = length imperfect" and "1 \<le> length imperfect"
  shows "\<exists>M v x. normalEquations imperfect perfect regParam = Inr (M, v) \<and>
           regularizedLeastSquares imperfect perfect regParam = Inr x \<and>
           length x = length imperfect \<and>
           (\<forall>i. i < length imperfect \<and> pivotAt M v i = Fin 0 \<longrightarrow> \<not> isFinite (x ! i))"
proof -
  let ?n = "length imperfect"
  from normalEquations_square [OF assms] obtain M v where
    Mv: "normalEquations imperfect perfect regParam = Inr (M, v)"
      "length M = ?n" "\<forall>r\<in>set M. length r = ?n" "length v = ?n" by blast
  from solveLinearSystem_square [OF Mv(2,3,4)] obtain x where
    x: "solveLinearSystem M v = Inr x" "length x = ?n" by blast
  have "\<not> isFinite (x ! i)" if "i < ?n" and "pivotAt M v i = Fin 0" for i
    using solveLinearSystem_zero_pivot [OF Mv(2,3,4) that] x by simp
  with Mv(1) x show ?thesis
    by (simp add: regularizedLeastSquares_def)
qed

theorem solve_returns_coefficients_witness:
  "\<exists>M v x. normalEquations [Fin 1, Fin 1] [Fin 3, Fin 1] (Fin 0) = Inr (M, v) \<and>
     regularizedLeastSquares [Fin 1, Fin 1] [Fin 3, Fin 1] (Fin 0) = Inr x \<and> length x = 2 \<and>
     pivotAt M v 1 = Fin 0 \<and> \<not> isFinite (x ! 1)"
proof -
  have ne: "normalEquations [Fin 1, Fin 1] [Fin 3, Fin 1] (Fin 0)
      = Inr ([[Fin 2, Fin 2], [Fin 2, Fin 2]], [Fin 4, Fin 4])"
    by code_simp
  have pv: "pivotAt [[Fin 2, Fin 2], [Fin 2, Fin 2]] [Fin 4, Fin 4] 1 = Fin 0"
    by code_simp
  from solve_returns_coefficients [of "[Fin 3, Fin 1]" "[Fin 1, Fin 1]" "Fin 0"] ne pv
  show ?thesis by (auto simp: numeral_2_eq_2)
qed

text \<open>
  The measured signal \<open>[1, 1]\<close> with regularization 0: the normal-equations matrix is
  \<open>[[2, 2], [2, 2]]\<close>, the second pivot is 0 after the first elimination step, and
  the solve returns \<open>[NaN, NaN]\<close>.
\<close>

theorem solve_zero_pivot_returns_NaN:
  "normalEquations [Fin 1, Fin 1] [Fin 3, Fin 1] (Fin 0)
     = Inr ([[Fin 2, Fin 2], [Fin 2, Fin 2]], [Fin 4, Fin 4]) \<and>
   pivotAt [[Fin 2, Fin 2], [Fin 2, Fin 2]] [Fin 4, Fin 4] 1 = Fin 0 \<and>
   regularizedLeastSquares [Fin 1, Fin 1] [Fin 3, Fin 1] (Fin 0) = Inr [NaN, NaN]"
  by code_simp

section \<open>Properties of the spectrum analyzer\<close>

text \<open>
  Claim C10: for every non-empty input buffer and every sample rate, \<open>ComputeFFT\<close>
  succeeds and the \<open>Harmonics\<close> field of its result is the empty list. The result is
  built with the literal \<open>[][]float64{}\<close>; \<open>findPeaksWithFundamental\<close> is not called.
\<close>

theorem analyze_returns_no_harmonics:
  assumes "data \<noteq> []"
  shows "\<exists>r. ComputeFFT coeffAbs data sampleRate = Inr r \<and> Harmonics r = []"
  using assms by (simp add: ComputeFFT_def Let_def)

theorem analyze_returns_no_harmonics_witness:
  "\<exists>r. ComputeFFT (\<lambda>input i. Fin 1) [Fin 1, Fin (- 1), Fin 1, Fin (- 1)] (Fin 51200) = Inr r \<and>
     Harmonics r = []"
  using analyze_returns_no_harmonics
    [of "[Fin 1, Fin (- 1), Fin 1, Fin (- 1)]" "\<lambda>input i. Fin 1" "Fin 51200"]
  by simp

text \<open>The frequency axis: \<open>fftSize/2 + 1\<close> bins, bin \<open>i\<close> at \<open>(i / fftSize) \<cdot> (sampleRate/2)\<close>.\<close>

lemma frequency_of_bin:
  assumes "data \<noteq> []" and "i \<le> fftSize div 2"
  shows "\<exists>r. ComputeFFT coeffAbs data (Fin sampleRate) = Inr r \<and>
           length (Frequencies r) = fftSize div 2 + 1 \<and>
           Frequencies r ! i = Fin (real i / real fftSize * (sampleRate / 2))"
  using assms by (simp add: ComputeFFT_def Let_def Freq_def del: upt_Suc)

text \<open>
  Claim C8 asks for bin \<open>i\<close> at \<open>(i / transformSize) \<times> (sampleRate/2)\<close>, bin 0 at 0 Hz
  and the last bin, of index \<open>transformSize/2\<close>, at the Nyquist frequency
  \<open>sampleRate/2\<close>. At the sample rate 51200 Hz of the FFT request path the code puts bin
  0 at 0 Hz and the last bin, 32768, at 12800 Hz: a quarter of the sample rate, half of
  the Nyquist frequency 25600 Hz.
\<close>

theorem last_bin_is_half_nyquist:
  "case ComputeFFT coeffAbs [Fin 1] (Fin 51200) of
     Inl e \<Rightarrow> False
   | Inr r \<Rightarrow> length (Frequencies r) = 32769 \<and> Frequencies r ! 0 = Fin 0 \<and>
              Frequencies r ! 32768 = Fin 12800"
  by (simp add: ComputeFFT_def Let_def Freq_def fftSize_def)

section \<open>Properties of the file readers\<close>

text \<open>
  The sample count and the windowed reader count 4 bytes per sample; the full read
  counts 8.
\<close>

lemma readBinaryFile_full_read:
  assumes "fs path = Some bytes" and "4 \<le> length bytes"
  shows "\<exists>tms vals. readBinaryFile fs path 0 0 = Inr (tms, vals) \<and>
           length vals = length bytes div 4 \<and> length tms = length bytes div 4"
proof -
  let ?n = "length bytes"
  have d: "int ?n div 4 = int (?n div 4)" by (simp add: zdiv_int)
  from assms(2) have pos: "0 < ?n div 4" by arith
  have le: "?n div 4 * 4 \<le> ?n" by arith
  then have t: "length (take (?n div 4 * 4) bytes) = ?n div 4 * 4" by simp
  from pos have ne: "bytes \<noteq> []" by auto
  from assms(1) pos ne show ?thesis
    by (simp add: readBinaryFile_def Let_def d t nat_mult_distrib del: length_take)
qed

lemma ReadBinaryFile_count:
  "fs path = Some bytes \<Longrightarrow>
     \<exists>samples. ReadBinaryFile fs path = Inr samples \<and> length samples = length bytes div 8"
  by (simp add: ReadBinaryFile_def)

text \<open>
  Claim C1 says that every read takes the file as 4-byte samples, so that a full read
  returns \<open>size / 4\<close> samples, \<open>ReadBinaryFile\<close> too. On a file of 400 bytes
  \<open>GetTotalFileLength\<close> counts 100 samples, and \<open>ReadBinaryFile\<close> returns 50 values,
  each decoded from 8 bytes.
\<close>

theorem full_read_counts_eight_byte_samples:
  "case ReadBinaryFile (\<lambda>p. if p = ''rec.bin'' then Some (replicate 400 0) else None) ''rec.bin'' of
     Inl e \<Rightarrow> False
   | Inr samples \<Rightarrow>
       length samples = 50 \<and>
       GetTotalFileLength (\<lambda>p. if p = ''rec.bin'' then Some (replicate 400 0) else None)
         [''rec.bin''] = Inr 100"
  by (simp add: ReadBinaryFile_def GetTotalFileLength_def)

end
